theory Spec2Isabelle
  imports Complex_Main "HOL-Library.Sublist" "HOL-Library.AList"
begin

section \<open>Python strings\<close>

text \<open>
  A Python \<open>str\<close> is modelled as a HOL \<open>string\<close> (a list of 8-bit characters), so the
  model covers ASCII text. \<open>str.replace(old, new)\<close> replaces the non-overlapping
  occurrences of \<open>old\<close> from left to right; for an empty \<open>old\<close> Python puts \<open>new\<close>
  before every character and at the end.
\<close>

fun replace_ne :: "string \<Rightarrow> string \<Rightarrow> string \<Rightarrow> string" where
  "replace_ne old new [] = []"
| "replace_ne old new (c # cs) =
     (if prefix old (c # cs) then new @ replace_ne old new (drop (length old - 1) cs)
      else c # replace_ne old new cs)"

definition str_replace :: "string \<Rightarrow> string \<Rightarrow> string \<Rightarrow> string" where
  "str_replace old new s =
     (if old = [] then new @ concat (map (\<lambda>c. c # new) s) else replace_ne old new s)"


text \<open>\<open>s.endswith(suf)\<close>, \<open>s.startswith(pre)\<close>.\<close>

definition endswith :: "string \<Rightarrow> string \<Rightarrow> bool" where
  "endswith s suf = suffix suf s"

definition startswith :: "string \<Rightarrow> string \<Rightarrow> bool" where
  "startswith s pre = prefix pre s"

section \<open>The TTL cache (cache.py)\<close>

text \<open>
  A cache entry is the tuple \<open>(data, timestamp, ttl)\<close> of \<open>_memory_cache\<close>. The stored
  data is any Python value, \<open>None\<close> included: it is modelled as \<open>'v option\<close> with
  \<open>None\<close> for Python's \<open>None\<close>, which is also what \<open>get\<close> returns for a missing key.
  \<open>time.time()\<close> is a parameter \<open>now\<close> of every operation that reads the clock; times
  are real numbers (the rounding of float subtraction is not modelled). The dictionary
  is an association list in insertion order, as a Python \<open>dict\<close> iterates. The cache
  directory is the association list \<open>disk\<close> from file names to pickled records; file
  operations are taken to succeed (the source logs and swallows their failures).
\<close>

type_synonym 'v entry = "'v option \<times> real \<times> int"

record 'v cache =
  default_ttl :: int
  memory_cache :: "(string \<times> 'v entry) list"
  disk :: "(string \<times> 'v entry) list"

definition get_cache_filename :: "string \<Rightarrow> string" where
  "get_cache_filename key =
     (let safe_key = str_replace '':'' ''_''
                       (str_replace [CHR 0x5C] ''_'' (str_replace ''/'' ''_'' key))
      in safe_key @ ''.cache'')"

definition get_key_from_filename :: "string \<Rightarrow> string" where
  "get_key_from_filename filename =
     str_replace ''_'' ''/'' (str_replace ''.cache'' '''' filename)"

definition save_to_disk :: "string \<Rightarrow> 'v option \<Rightarrow> real \<Rightarrow> int \<Rightarrow> 'v cache \<Rightarrow> 'v cache" where
  "save_to_disk key data timestamp ttl s =
     s\<lparr>disk := AList.update (get_cache_filename key) (data, timestamp, ttl) (disk s)\<rparr>"

definition remove_from_disk :: "string \<Rightarrow> 'v cache \<Rightarrow> 'v cache" where
  "remove_from_disk key s = s\<lparr>disk := AList.delete (get_cache_filename key) (disk s)\<rparr>"

text \<open>The expiry test written at every call site: \<open>time.time() - timestamp > ttl\<close>.\<close>

definition expired :: "real \<Rightarrow> 'v entry \<Rightarrow> bool" where
  "expired now e = (case e of (data, timestamp, ttl) \<Rightarrow> now - timestamp > real_of_int ttl)"

definition get :: "real \<Rightarrow> string \<Rightarrow> 'v cache \<Rightarrow> 'v option \<times> 'v cache" where
  "get now key s =
     (case map_of (memory_cache s) key of
        None \<Rightarrow> (None, s)
      | Some (data, timestamp, ttl) \<Rightarrow>
          if now - timestamp > real_of_int ttl
          then (None, remove_from_disk key
                        (s\<lparr>memory_cache := AList.delete key (memory_cache s)\<rparr>))
          else (data, s))"

definition set_entry :: "real \<Rightarrow> string \<Rightarrow> 'v option \<Rightarrow> int option \<Rightarrow> 'v cache \<Rightarrow> 'v cache" where
  "set_entry now key data ttl s =
     (let ttl' = (case ttl of None \<Rightarrow> default_ttl s | Some t \<Rightarrow> t);
          timestamp = now
      in save_to_disk key data timestamp ttl'
           (s\<lparr>memory_cache := AList.update key (data, timestamp, ttl') (memory_cache s)\<rparr>))"

definition has_key :: "real \<Rightarrow> string \<Rightarrow> 'v cache \<Rightarrow> bool \<times> 'v cache" where
  "has_key now key s = (case get now key s of (data, s') \<Rightarrow> (data \<noteq> None, s'))"

text \<open>The body of the second loop of \<open>cleanup_expired\<close>.\<close>

definition delete_expired_key :: "string \<Rightarrow> 'v cache \<Rightarrow> 'v cache" where
  "delete_expired_key key s =
     remove_from_disk key (s\<lparr>memory_cache := AList.delete key (memory_cache s)\<rparr>)"

definition cleanup_expired :: "real \<Rightarrow> 'v cache \<Rightarrow> nat \<times> 'v cache" where
  "cleanup_expired now s =
     (let current_time = now;
          expired_keys = map fst (filter (\<lambda>(key, e). expired current_time e) (memory_cache s))
      in (length expired_keys, fold delete_expired_key expired_keys s))"

text \<open>
  \<open>get_or_set\<close> calls \<open>factory_func()\<close>, an arbitrary Python callable: it is a
  function on a world \<open>'w\<close> that returns the new world and either the exception it
  raised or its value. \<open>get\<close> and \<open>set\<close> read the clock separately.
\<close>

datatype exn = Exn string

definition get_or_set ::
  "real \<Rightarrow> real \<Rightarrow> string \<Rightarrow> ('w \<Rightarrow> (exn + 'v option) \<times> 'w) \<Rightarrow> int option \<Rightarrow> 'w \<Rightarrow> 'v cache
     \<Rightarrow> (exn + 'v option) \<times> 'w \<times> 'v cache" where
  "get_or_set now_get now_set key factory_func ttl w s =
     (case get now_get key s of
        (Some cached_data, s1) \<Rightarrow> (Inr (Some cached_data), w, s1)
      | (None, s1) \<Rightarrow>
          (case factory_func w of
             (Inl e, w') \<Rightarrow> (Inl e, w', s1)
           | (Inr new_data, w') \<Rightarrow> (Inr new_data, w', set_entry now_set key new_data ttl s1)))"

text \<open>
  To count the calls of a callable, \<open>counted f\<close> runs \<open>f\<close> on the world and adds one
  to a counter kept beside it.
\<close>

definition counted :: "('w \<Rightarrow> 'r \<times> 'w) \<Rightarrow> nat \<times> 'w \<Rightarrow> 'r \<times> (nat \<times> 'w)" where
  "counted f = (\<lambda>(n, w). case f w of (r, w') \<Rightarrow> (r, (Suc n, w')))"

text \<open>
  \<open>_load_from_disk\<close>, called by \<open>__init__\<close> on an empty dictionary: every file of the
  directory whose name ends in \<open>.cache\<close> is read, in the order of \<open>os.listdir\<close> (here
  the order of \<open>disk\<close>); a live record is entered under the key recovered from the file
  name, an expired one is removed from the disk. The records are well-formed pickles,
  and the clock reads \<open>now\<close> for every file.
\<close>

definition load_file :: "real \<Rightarrow> string \<times> 'v entry \<Rightarrow> 'v cache \<Rightarrow> 'v cache" where
  "load_file now f s =
     (case f of (filename, (data, timestamp, ttl)) \<Rightarrow>
        if \<not> endswith filename ''.cache'' then s
        else (let key = get_key_from_filename filename
              in if now - timestamp \<le> real_of_int ttl
                 then s\<lparr>memory_cache := AList.update key (data, timestamp, ttl) (memory_cache s)\<rparr>
                 else s\<lparr>disk := AList.delete filename (disk s)\<rparr>))"

definition load_from_disk :: "real \<Rightarrow> 'v cache \<Rightarrow> 'v cache" where
  "load_from_disk now s = fold (load_file now) (disk s) s"

text \<open>
  \<open>__init__\<close>, for a cache directory with the files \<open>dir\<close>: the dictionary starts
  empty and the directory is loaded.
\<close>

definition init_cache :: "int \<Rightarrow> real \<Rightarrow> (string \<times> 'v entry) list \<Rightarrow> 'v cache" where
  "init_cache ttl now dir =
     load_from_disk now \<lparr>default_ttl = ttl, memory_cache = [], disk = dir\<rparr>"

section \<open>More of Python's string methods\<close>

text \<open>
  The predicates and \<open>lower\<close> are Python's restricted to ASCII: a character above
  \<open>0x7F\<close> is not alphanumeric here and is left alone by \<open>lower\<close>.
\<close>

definition isalnum :: "char \<Rightarrow> bool" where
  "isalnum c = (let n = (of_char c :: nat) in
     (48 \<le> n \<and> n \<le> 57) \<or> (65 \<le> n \<and> n \<le> 90) \<or> (97 \<le> n \<and> n \<le> 122))"

definition isspace :: "char \<Rightarrow> bool" where
  "isspace c = (let n = (of_char c :: nat) in (9 \<le> n \<and> n \<le> 13) \<or> (28 \<le> n \<and> n \<le> 32))"



definition rstrip :: "string \<Rightarrow> string" where
  "rstrip s = rev (dropWhile isspace (rev s))"


text \<open>\<open>s.rfind(c)\<close> for a character that occurs in \<open>s\<close>: the index of its last occurrence.\<close>

definition rfind :: "string \<Rightarrow> char \<Rightarrow> nat" where
  "rfind s c = length s - 1 - length (takeWhile (\<lambda>x. x \<noteq> c) (rev s))"

text \<open>\<open>os.path.join(a, b)\<close> of \<open>posixpath\<close>, for two components.\<close>

definition path_join :: "string \<Rightarrow> string \<Rightarrow> string" where
  "path_join a b =
     (if startswith b ''/'' then b
      else if a = [] \<or> endswith a ''/'' then a @ b
      else a @ ''/'' @ b)"

section \<open>The download manager (download_manager.py)\<close>

text \<open>
  An item is a dictionary from field names to strings, as the workshop records of
  \<open>steam_api.py\<close> are for the four fields read here. The Russian message texts are
  constructors of \<open>message\<close>.
\<close>

type_synonym item = "(string \<times> string) list"

datatype message =
    No_download_url
  | Already_downloading
  | Network_error
  | Filesystem_error

datatype dm_signal =
    Download_started string item
  | Download_progress string nat int int
  | Download_speed string real
  | Download_finished string string
  | Download_error string message
  | All_downloads_finished

text \<open>
  A \<open>DownloadThread\<close> object: its attributes, then what its \<open>run()\<close> holds while it
  executes (the local variables and where it stands).
\<close>

datatype phase = Not_started | Streaming | Returned

record download_thread =
  url :: string
  file_path :: string
  item_data :: item
  is_cancelled :: bool
  phase :: phase
  total_size :: int
  downloaded_size :: nat
  last_time :: real
  last_downloaded :: nat

record download_manager =
  active_downloads :: "(string \<times> download_thread) list"
  download_queue :: "(item \<times> string) list"
  max_concurrent_downloads :: int
  emitted :: "dm_signal list"

definition emit :: "dm_signal \<Rightarrow> download_manager \<Rightarrow> download_manager" where
  "emit sig s = s\<lparr>emitted := emitted s @ [sig]\<rparr>"

definition get_download_url :: "item \<Rightarrow> string option" where
  "get_download_url item =
     (case map_of item ''file_url'' of
        Some (c # cs) \<Rightarrow> Some (c # cs)
      | _ \<Rightarrow>
        (case map_of item ''publishedfileid'' of
           Some (c # cs) \<Rightarrow> Some (''https://steamworkshopdownloader.io/download/'' @ c # cs)
         | _ \<Rightarrow> None))"

definition generate_filename :: "item \<Rightarrow> string" where
  "generate_filename item =
     (let title = (case map_of item ''title'' of Some t \<Rightarrow> t | None \<Rightarrow> ''workshop_item'');
          safe_title = rstrip (filter (\<lambda>c. isalnum c \<or> c \<in> set '' -_'') title);
          safe_title = take 50 (str_replace '' '' ''_'' safe_title);
          file_id = (case map_of item ''publishedfileid'' of Some i \<Rightarrow> i | None \<Rightarrow> ''unknown'');
          filename = (case map_of item ''filename'' of Some f \<Rightarrow> f | None \<Rightarrow> []);
          extension = (if filename \<noteq> [] \<and> CHR ''.'' \<in> set filename
                       then drop (rfind filename CHR ''.'') filename else ''.zip'')
      in safe_title @ ''_'' @ file_id @ extension)"

definition start_download_thread ::
  "item \<Rightarrow> string \<Rightarrow> string \<Rightarrow> download_manager \<Rightarrow> bool \<times> download_manager" where
  "start_download_thread item download_url path s =
     (let download_thread = \<lparr>url = download_url, file_path = path, item_data = item,
            is_cancelled = False, phase = Not_started, total_size = 0, downloaded_size = 0,
            last_time = 0, last_downloaded = 0\<rparr>;
          s = s\<lparr>active_downloads := AList.update path download_thread (active_downloads s)\<rparr>
      in (True, emit (Download_started path item) s))"

definition start_download :: "item \<Rightarrow> string \<Rightarrow> download_manager \<Rightarrow> bool \<times> download_manager" where
  "start_download item download_dir s =
     (case get_download_url item of
        None \<Rightarrow> (False, emit (Download_error [] No_download_url) s)
      | Some download_url \<Rightarrow>
          (let filename = generate_filename item;
               path = path_join download_dir filename
           in if path \<in> fst ` set (active_downloads s)
              then (False, emit (Download_error path Already_downloading) s)
              else if int (length (active_downloads s)) \<ge> max_concurrent_downloads s
              then (True, s\<lparr>download_queue := download_queue s @ [(item, download_dir)]\<rparr>)
              else start_download_thread item download_url path s))"

definition start_next_download :: "download_manager \<Rightarrow> download_manager" where
  "start_next_download s =
     (case download_queue s of
        [] \<Rightarrow> s
      | (item, download_dir) # rest \<Rightarrow>
          if int (length (active_downloads s)) < max_concurrent_downloads s
          then snd (start_download item download_dir (s\<lparr>download_queue := rest\<rparr>))
          else s)"

definition on_download_finished :: "string \<Rightarrow> string \<Rightarrow> download_manager \<Rightarrow> download_manager" where
  "on_download_finished path final_path s =
     (let s = s\<lparr>active_downloads := AList.delete path (active_downloads s)\<rparr>;
          s = emit (Download_finished path final_path) s;
          s = start_next_download s
      in if active_downloads s = [] \<and> download_queue s = []
         then emit All_downloads_finished s else s)"

definition on_download_error :: "string \<Rightarrow> message \<Rightarrow> download_manager \<Rightarrow> download_manager" where
  "on_download_error path error_message s =
     (let s = s\<lparr>active_downloads := AList.delete path (active_downloads s)\<rparr>;
          s = emit (Download_error path error_message) s
      in start_next_download s)"

definition cancel_download :: "string \<Rightarrow> download_manager \<Rightarrow> bool \<times> download_manager" where
  "cancel_download path s =
     (case map_of (active_downloads s) path of
        Some thread \<Rightarrow>
          (True, s\<lparr>active_downloads :=
                     AList.update path (thread\<lparr>is_cancelled := True\<rparr>) (active_downloads s)\<rparr>)
      | None \<Rightarrow> (False, s))"

definition is_downloading :: "string \<Rightarrow> download_manager \<Rightarrow> bool" where
  "is_downloading path s = (path \<in> fst ` set (active_downloads s))"

definition get_active_downloads :: "download_manager \<Rightarrow> string list" where
  "get_active_downloads s = map fst (active_downloads s)"

text \<open>The destination path that \<open>start_download\<close> computes for a request.\<close>

definition dest_path :: "item \<times> string \<Rightarrow> string" where
  "dest_path r = path_join (snd r) (generate_filename (fst r))"

text \<open>Calling \<open>start_download\<close> for each request of a list, in order.\<close>

definition start_all :: "(item \<times> string) list \<Rightarrow> download_manager \<Rightarrow> download_manager" where
  "start_all reqs s = fold (\<lambda>r s. snd (start_download (fst r) (snd r) s)) reqs s"

text \<open>
  The reading of the filename scenario of the specification: the characters that may
  not appear in a filename, and "underscored in their place", which says that the
  name has an underscore at every position where the title has such a character.
\<close>

definition forbidden_chars :: string where
  "forbidden_chars = ''<>:/'' @ [CHR 0x5C] @ ''|?*''"

definition underscored_in_place :: "string \<Rightarrow> string \<Rightarrow> bool" where
  "underscored_in_place title name =
     list_all (\<lambda>i. if title ! i \<in> set forbidden_chars
                    then i < length name \<and> name ! i = CHR ''_'' else True)
       [0..<length title]"

text \<open>Two items and a manager that runs one transfer at a time, for the examples.\<close>

abbreviation item_a :: item where
  "item_a \<equiv> [(''title'', ''A''), (''publishedfileid'', ''1'')]"

abbreviation item_b :: item where
  "item_b \<equiv> [(''title'', ''B''), (''publishedfileid'', ''2'')]"

abbreviation manager_of_one :: download_manager where
  "manager_of_one \<equiv> \<lparr>active_downloads = [], download_queue = [],
     max_concurrent_downloads = 1, emitted = []\<rparr>"

section \<open>A running transfer (DownloadThread.run)\<close>

text \<open>
  \<open>run()\<close> executes in its own thread while the manager serves calls, so it is
  modelled in steps that interleave with the manager's operations: connecting, one
  step for each item that the response stream delivers, and the end of the stream.
  The thread object lives in \<open>active_downloads\<close>, where \<open>cancel_download\<close> sets its
  flag and the steps read it. A signal of the thread runs the slot that
  \<open>_start_download_thread\<close> connected to it at once. The file system is the
  association list \<open>files\<close> from paths to sizes; \<open>os.remove\<close> is taken to succeed.
  The percentage and the speed are computed in exact arithmetic.
\<close>

datatype response =
    Connect_failed             \<comment> \<open>\<open>requests.get\<close> or \<open>raise_for_status\<close> raises\<close>
  | Os_failed                  \<comment> \<open>\<open>os.makedirs\<close> or \<open>open\<close> raises \<open>OSError\<close>\<close>
  | Connected int real         \<comment> \<open>the content length and the reading of \<open>start_time\<close>\<close>

datatype stream_item =
    Chunk nat real             \<comment> \<open>\<open>len(chunk)\<close> and the reading of \<open>current_time\<close>\<close>
  | Chunk_write_fails nat      \<comment> \<open>a chunk whose \<open>f.write\<close> raises \<open>OSError\<close>\<close>
  | Stream_error               \<comment> \<open>\<open>iter_content\<close> raises a \<open>RequestException\<close>\<close>

record system =
  manager :: download_manager
  files :: "(string \<times> nat) list"

definition set_thread :: "string \<Rightarrow> download_thread \<Rightarrow> system \<Rightarrow> system" where
  "set_thread path th sys =
     sys\<lparr>manager := (manager sys)\<lparr>active_downloads :=
            AList.update path th (active_downloads (manager sys))\<rparr>\<rparr>"

text \<open>The \<open>except\<close> clauses of \<open>run\<close>: the error signal unless cancelled, then return.\<close>

definition thread_raises :: "string \<Rightarrow> download_thread \<Rightarrow> message \<Rightarrow> system \<Rightarrow> system" where
  "thread_raises path th msg sys =
     (let sys = set_thread path (th\<lparr>phase := Returned\<rparr>) sys
      in if \<not> is_cancelled th
         then sys\<lparr>manager := on_download_error path msg (manager sys)\<rparr>
         else sys)"

definition run_connect :: "string \<Rightarrow> response \<Rightarrow> system \<Rightarrow> system" where
  "run_connect path resp sys =
     (case map_of (active_downloads (manager sys)) path of
        None \<Rightarrow> sys
      | Some th \<Rightarrow>
          if phase th \<noteq> Not_started then sys
          else (case resp of
                  Connect_failed \<Rightarrow> thread_raises path th Network_error sys
                | Os_failed \<Rightarrow> thread_raises path th Filesystem_error sys
                | Connected content_length start_time \<Rightarrow>
                    (set_thread path
                       (th\<lparr>phase := Streaming, total_size := content_length, downloaded_size := 0,
                           last_time := start_time, last_downloaded := 0\<rparr>) sys)
                      \<lparr>files := AList.update path 0 (files sys)\<rparr>))"

definition write_chunk :: "string \<Rightarrow> download_thread \<Rightarrow> nat \<Rightarrow> real \<Rightarrow> system \<Rightarrow> system" where
  "write_chunk path th n current_time sys =
     (let written = (case map_of (files sys) path of Some k \<Rightarrow> k | None \<Rightarrow> 0);
          sys = sys\<lparr>files := AList.update path (written + n) (files sys)\<rparr>;
          downloaded = downloaded_size th + n;
          percentage = (if total_size th > 0 then (int downloaded * 100) div total_size th else 0);
          sys = sys\<lparr>manager := emit (Download_progress path downloaded (total_size th) percentage)
                                   (manager sys)\<rparr>
      in if current_time - last_time th \<ge> 1
         then (let time_diff = current_time - last_time th;
                   bytes_diff = downloaded - last_downloaded th;
                   speed_mbps = (real bytes_diff / time_diff) / (1024 * 1024);
                   sys = sys\<lparr>manager := emit (Download_speed path speed_mbps) (manager sys)\<rparr>
               in set_thread path (th\<lparr>downloaded_size := downloaded, last_time := current_time,
                                      last_downloaded := downloaded\<rparr>) sys)
         else set_thread path (th\<lparr>downloaded_size := downloaded\<rparr>) sys)"

text \<open>The cancelled branch of the loop: close and remove the file, return, no signal.\<close>

definition abandon :: "string \<Rightarrow> download_thread \<Rightarrow> system \<Rightarrow> system" where
  "abandon path th sys =
     (set_thread path (th\<lparr>phase := Returned\<rparr>) sys)\<lparr>files := AList.delete path (files sys)\<rparr>"

definition run_item :: "string \<Rightarrow> stream_item \<Rightarrow> system \<Rightarrow> system" where
  "run_item path it sys =
     (case map_of (active_downloads (manager sys)) path of
        None \<Rightarrow> sys
      | Some th \<Rightarrow>
          if phase th \<noteq> Streaming then sys
          else (case it of
                  Stream_error \<Rightarrow> thread_raises path th Network_error sys
                | Chunk n current_time \<Rightarrow>
                    if is_cancelled th then abandon path th sys
                    else if n > 0 then write_chunk path th n current_time sys
                    else sys
                | Chunk_write_fails n \<Rightarrow>
                    if is_cancelled th then abandon path th sys
                    else if n > 0 then thread_raises path th Filesystem_error sys
                    else sys))"

definition run_end :: "string \<Rightarrow> system \<Rightarrow> system" where
  "run_end path sys =
     (case map_of (active_downloads (manager sys)) path of
        None \<Rightarrow> sys
      | Some th \<Rightarrow>
          if phase th \<noteq> Streaming then sys
          else (let sys = set_thread path (th\<lparr>phase := Returned\<rparr>) sys
                in if \<not> is_cancelled th
                   then sys\<lparr>manager := on_download_finished path (file_path th) (manager sys)\<rparr>
                   else sys))"

text \<open>\<open>clear_completed_downloads\<close>: \<open>thread.isFinished()\<close> holds once \<open>run\<close> has returned.\<close>

definition clear_completed_downloads :: "download_manager \<Rightarrow> download_manager" where
  "clear_completed_downloads s =
     (let completed_threads =
            map fst (filter (\<lambda>(path, th). phase th = Returned) (active_downloads s))
      in fold (\<lambda>path s. s\<lparr>active_downloads := AList.delete path (active_downloads s)\<rparr>)
           completed_threads s)"

text \<open>What happens to the system, one step at a time.\<close>

datatype step =
    Start item string
  | Cancel string
  | Connect string response
  | Deliver string stream_item
  | End_of_stream string

fun exec_step :: "step \<Rightarrow> system \<Rightarrow> system" where
  "exec_step (Start item dir) sys = sys\<lparr>manager := snd (start_download item dir (manager sys))\<rparr>"
| "exec_step (Cancel path) sys = sys\<lparr>manager := snd (cancel_download path (manager sys))\<rparr>"
| "exec_step (Connect path resp) sys = run_connect path resp sys"
| "exec_step (Deliver path it) sys = run_item path it sys"
| "exec_step (End_of_stream path) sys = run_end path sys"

definition exec :: "step list \<Rightarrow> system \<Rightarrow> system" where
  "exec steps sys = fold exec_step steps sys"

text \<open>
  A cancelled transfer, with one transfer allowed: \<open>A\<close> is started and \<open>B\<close> queued
  behind it; \<open>A\<close> connects and receives a first chunk; \<open>cancel_download\<close> is called for
  \<open>A\<close>; the loop meets the flag at the next chunk and returns.
\<close>

abbreviation cancelled_run :: system where
  "cancelled_run \<equiv> exec [Start item_a ''d'', Start item_b ''d'',
      Connect ''d/A_1.zip'' (Connected 100 0), Deliver ''d/A_1.zip'' (Chunk 50 (1/2)),
      Cancel ''d/A_1.zip'', Deliver ''d/A_1.zip'' (Chunk 50 (3/5)),
      End_of_stream ''d/A_1.zip''] \<lparr>manager = manager_of_one, files = []\<rparr>"

text \<open>The same transfer when nobody cancels it.\<close>

abbreviation completed_run :: system where
  "completed_run \<equiv> exec [Start item_a ''d'', Start item_b ''d'',
      Connect ''d/A_1.zip'' (Connected 100 0), Deliver ''d/A_1.zip'' (Chunk 50 (1/2)),
      Deliver ''d/A_1.zip'' (Chunk 50 (3/5)),
      End_of_stream ''d/A_1.zip''] \<lparr>manager = manager_of_one, files = []\<rparr>"

section \<open>The catalogue and the search (steam_api.py, worker.py)\<close>

record game =
  appid :: int
  name :: string




text \<open>
  \<open>SearchThread.run\<close>. The cache holds lists of games. The three readings of
  \<open>is_cancelled\<close> are parameters, since \<open>cancel()\<close> may be called from another thread
  at any moment. The result is the signals emitted, the queries passed to
  \<open>search_games\<close>, and the cache. A truthy cached value is a non-empty list.
\<close>

datatype search_signal = Search_results "game list" | Search_error string




section \<open>Properties of the cache\<close>

lemma str_replace_char:
  "str_replace [a] [b] s = map (\<lambda>c. if c = a then b else c) s"
  by (induction s) (auto simp: str_replace_def)

text \<open>
  C1. The record name of a key is neither collision-free nor reversible: the keys
  \<open>a/b\<close> and \<open>a_b\<close> share the record \<open>a_b.cache\<close>, and the key \<open>popular_games_list\<close>
  that the game-list loader uses comes back from its record name as
  \<open>popular/games/list\<close>. So a value stored under \<open>popular_games_list\<close>, which \<open>get\<close>
  returns while the cache object lives, is entered under \<open>popular/games/list\<close> by the
  next cache object that loads the directory, and \<open>get\<close> no longer finds it.
\<close>

theorem cache_filename_collides_and_does_not_round_trip:
  "get_cache_filename ''a/b'' = get_cache_filename ''a_b''
   \<and> get_key_from_filename (get_cache_filename ''popular_games_list'') = ''popular/games/list''
   \<and> fst (get 1 ''popular_games_list''
        (set_entry 0 ''popular_games_list'' (Some (1::nat)) (Some 3600)
           \<lparr>default_ttl = 3600, memory_cache = [], disk = []\<rparr>)) = Some 1
   \<and> fst (get 1 ''popular_games_list''
        (init_cache 3600 1 (disk (set_entry 0 ''popular_games_list'' (Some (1::nat)) (Some 3600)
           \<lparr>default_ttl = 3600, memory_cache = [], disk = []\<rparr>)))) = None
   \<and> map fst (memory_cache
        (init_cache 3600 1 (disk (set_entry 0 ''popular_games_list'' (Some (1::nat)) (Some 3600)
           \<lparr>default_ttl = 3600, memory_cache = [], disk = []\<rparr>)))) = [''popular/games/list'']"
  by (simp add: get_cache_filename_def get_key_from_filename_def str_replace_def
        get_def set_entry_def save_to_disk_def init_cache_def load_from_disk_def load_file_def
        endswith_def suffix_to_prefix)

subsection \<open>Reading back what was stored\<close>

lemma get_fst_cases:
  "fst (get now key s) =
     (case map_of (memory_cache s) key of None \<Rightarrow> None
      | Some (data, timestamp, ttl) \<Rightarrow> if now - timestamp > real_of_int ttl then None else data)"
  by (simp add: get_def split: option.split prod.split)

lemma memory_after_set:
  "map_of (memory_cache (set_entry now key data ttl s)) key =
     Some (data, now, case ttl of None \<Rightarrow> default_ttl s | Some t \<Rightarrow> t)"
  by (simp add: set_entry_def save_to_disk_def Let_def update_conv')


lemma get_after_other_set:
  "key' \<noteq> key \<Longrightarrow>
   fst (get now' key (set_entry now key' data ttl s)) = fst (get now' key s)"
  by (simp add: get_fst_cases set_entry_def save_to_disk_def Let_def update_conv')




subsection \<open>The sweep\<close>

lemma memory_fold_delete:
  "memory_cache (fold delete_expired_key ks s) =
     filter (\<lambda>p. fst p \<notin> set ks) (memory_cache s)"
proof (induction ks arbitrary: s)
  case Nil
  show ?case by simp
next
  case (Cons k ks)
  have "memory_cache (delete_expired_key k s) = filter (\<lambda>p. k \<noteq> fst p) (memory_cache s)"
    by (simp add: delete_expired_key_def remove_from_disk_def AList.delete_eq case_prod_unfold)
  with Cons.IH [of "delete_expired_key k s"] show ?case
    by (auto intro: filter_cong)
qed

lemma expired_key_iff:
  assumes "distinct (map fst al)" and "(k, e) \<in> set al"
  shows "k \<in> fst ` {p \<in> set al. P (snd p)} \<longleftrightarrow> P e"
proof
  assume "k \<in> fst ` {p \<in> set al. P (snd p)}"
  then obtain e' where e': "(k, e') \<in> set al" "P e'" by auto
  from assms e' have "e' = e" by (meson eq_key_imp_eq_value)
  with e' show "P e" by simp
next
  assume "P e"
  with assms(2) show "k \<in> fst ` {p \<in> set al. P (snd p)}" by force
qed

lemma memory_after_cleanup:
  assumes "distinct (map fst (memory_cache s))"
  shows "memory_cache (snd (cleanup_expired now s)) =
           filter (\<lambda>(key, e). \<not> expired now e) (memory_cache s)"
proof -
  let ?al = "memory_cache s"
  have "filter (\<lambda>p. fst p \<notin> fst ` {q \<in> set ?al. expired now (snd q)}) ?al =
        filter (\<lambda>p. \<not> expired now (snd p)) ?al"
  proof (rule filter_cong [OF refl])
    fix p assume "p \<in> set ?al"
    then have "(fst p, snd p) \<in> set ?al" by simp
    from expired_key_iff [OF assms this, of "expired now"]
    show "(fst p \<notin> fst ` {q \<in> set ?al. expired now (snd q)}) = (\<not> expired now (snd p))"
      by simp
  qed
  then show ?thesis
    by (simp add: cleanup_expired_def memory_fold_delete case_prod_unfold)
qed



text \<open>The keys of the dictionary stay distinct.\<close>

lemma distinct_keys_set:
  "distinct (map fst (memory_cache s)) \<Longrightarrow>
   distinct (map fst (memory_cache (set_entry now key data ttl s)))"
  by (simp add: set_entry_def save_to_disk_def Let_def distinct_update)

lemma distinct_keys_get:
  "distinct (map fst (memory_cache s)) \<Longrightarrow>
   distinct (map fst (memory_cache (snd (get now key s))))"
  by (simp add: get_def remove_from_disk_def distinct_delete split: option.split prod.split)

lemma distinct_keys_cleanup:
  "distinct (map fst (memory_cache s)) \<Longrightarrow>
   distinct (map fst (memory_cache (snd (cleanup_expired now s))))"
  by (simp add: memory_after_cleanup distinct_map_filter)

subsection \<open>Read-through\<close>

lemma get_hit_state: "fst (get now key s) = Some d \<Longrightarrow> snd (get now key s) = s"
  by (auto simp: get_def split: option.splits prod.splits if_splits)

lemma default_ttl_get [simp]: "default_ttl (snd (get now key s)) = default_ttl s"
  by (simp add: get_def remove_from_disk_def split: option.split prod.split)

lemma get_or_set_hit:
  assumes "fst (get now_get key s) = Some d"
  shows "get_or_set now_get now_set key f ttl w s = (Inr (Some d), w, s)"
proof -
  from assms get_hit_state [OF assms] have "get now_get key s = (Some d, s)"
    by (metis prod.collapse)
  then show ?thesis by (simp add: get_or_set_def)
qed

lemma get_or_set_miss:
  assumes "fst (get now_get key s) = None"
  shows "get_or_set now_get now_set key f ttl w s =
           (case f w of
              (Inl e, w') \<Rightarrow> (Inl e, w', snd (get now_get key s))
            | (Inr v, w') \<Rightarrow> (Inr v, w', set_entry now_set key v ttl (snd (get now_get key s))))"
proof -
  obtain s1 where "get now_get key s = (None, s1)"
    using assms by (cases "get now_get key s") auto
  then show ?thesis by (simp add: get_or_set_def split: prod.split sum.split)
qed

text \<open>
  C9. \<open>get_or_set(k, p)\<close> on a miss (\<open>get(k)\<close> is \<open>None\<close>) with a producer that
  returns \<open>v\<close>: the producer has run once, the entry of \<open>k\<close> holds \<open>v\<close>, and \<open>v\<close> is
  returned. On a hit the cached value is returned, the producer has not run and the
  cache is as it was.
\<close>

theorem get_or_set_miss_and_hit:
  "(fst (get now_get key s) = None \<and> factory_func w = (Inr v, w') \<longrightarrow>
      get_or_set now_get now_set key (counted factory_func) ttl (0, w) s =
        (Inr v, (1, w'), set_entry now_set key v ttl (snd (get now_get key s)))
      \<and> map_of (memory_cache (snd (snd
            (get_or_set now_get now_set key (counted factory_func) ttl (0, w) s)))) key =
          Some (v, now_set, case ttl of None \<Rightarrow> default_ttl s | Some t \<Rightarrow> t))
   \<and> (fst (get now_get key s) = Some d \<longrightarrow>
        get_or_set now_get now_set key (counted factory_func) ttl (0, w) s =
          (Inr (Some d), (0, w), s))"
proof (intro conjI impI)
  assume a: "fst (get now_get key s) = None \<and> factory_func w = (Inr v, w')"
  then have c: "counted factory_func (0, w) = (Inr v, (1, w'))"
    by (simp add: counted_def)
  from a have m: "fst (get now_get key s) = None" by simp
  show r: "get_or_set now_get now_set key (counted factory_func) ttl (0, w) s =
        (Inr v, (1, w'), set_entry now_set key v ttl (snd (get now_get key s)))"
    by (simp add: get_or_set_miss [OF m] c)
  show "map_of (memory_cache (snd (snd
            (get_or_set now_get now_set key (counted factory_func) ttl (0, w) s)))) key =
          Some (v, now_set, case ttl of None \<Rightarrow> default_ttl s | Some t \<Rightarrow> t)"
    by (simp add: r memory_after_set split: option.split)
next
  assume "fst (get now_get key s) = Some d"
  then show "get_or_set now_get now_set key (counted factory_func) ttl (0, w) s =
          (Inr (Some d), (0, w), s)"
    by (rule get_or_set_hit)
qed

theorem get_or_set_miss_and_hit_witness:
  "fst (get 0 ''k'' \<lparr>default_ttl = 10, memory_cache = [], disk = []\<rparr>) = (None :: nat option)
   \<and> get_or_set 0 1 ''k'' (counted (\<lambda>w::unit. (Inr (Some (7::nat)), w))) None (0, ())
        \<lparr>default_ttl = 10, memory_cache = [], disk = []\<rparr> =
      (Inr (Some 7), (1, ()),
       \<lparr>default_ttl = 10, memory_cache = [(''k'', (Some 7, 1, 10))],
        disk = [(''k.cache'', (Some 7, 1, 10))]\<rparr>)
   \<and> fst (get 2 ''k'' \<lparr>default_ttl = 10, memory_cache = [(''k'', (Some (7::nat), 1, 10))],
        disk = []\<rparr>) = Some 7
   \<and> get_or_set 2 3 ''k'' (counted (\<lambda>w::unit. (Inr (Some (8::nat)), w))) None (0, ())
        \<lparr>default_ttl = 10, memory_cache = [(''k'', (Some 7, 1, 10))], disk = []\<rparr> =
      (Inr (Some 7), (0, ()),
       \<lparr>default_ttl = 10, memory_cache = [(''k'', (Some 7, 1, 10))], disk = []\<rparr>)"
  using get_or_set_miss_and_hit [where now_get = 0 and now_set = 1 and key = "''k''"
          and factory_func = "\<lambda>w::unit. (Inr (Some (7::nat)), w)" and w = "()" and w' = "()"
          and v = "Some 7" and ttl = None
          and s = "\<lparr>default_ttl = 10, memory_cache = [], disk = []\<rparr>"]
        get_or_set_miss_and_hit [where now_get = 2 and now_set = 3 and key = "''k''"
          and factory_func = "\<lambda>w::unit. (Inr (Some (8::nat)), w)" and w = "()"
          and d = 7 and ttl = None
          and s = "\<lparr>default_ttl = 10, memory_cache = [(''k'', (Some (7::nat), 1, 10))],
                   disk = []\<rparr>"]
  by (simp add: get_def set_entry_def save_to_disk_def get_cache_filename_def str_replace_def)

lemma get_or_set_producer_raises:
  assumes "fst (get now_get key s) = None" and "factory_func w = (Inl e, w')"
  shows "get_or_set now_get now_set key (counted factory_func) ttl (0, w) s =
           (Inl e, (1, w'), snd (get now_get key s))"
  using assms(2) by (simp add: get_or_set_miss [OF assms(1)] counted_def)

text \<open>
  C10. After \<open>set(k, None, t)\<close> the dictionary holds an entry for \<open>k\<close>, and yet
  \<open>get(k)\<close> returns \<open>None\<close>, \<open>has_key(k)\<close> returns \<open>False\<close>, and \<open>get_or_set(k, p)\<close> runs
  the producer, at whatever times they are called.
\<close>

theorem stored_none_is_absent:
  "map_of (memory_cache (set_entry now key None ttl s)) key =
     Some (None, now, case ttl of None \<Rightarrow> default_ttl s | Some t \<Rightarrow> t)
   \<and> fst (get now' key (set_entry now key None ttl s)) = None
   \<and> fst (has_key now' key (set_entry now key None ttl s)) = False
   \<and> fst (snd (get_or_set now' now'' key (counted factory_func) ttl' (0, w)
                 (set_entry now key None ttl s))) = (1, snd (factory_func w))"
proof -
  let ?s = "set_entry now key None ttl s"
  have g: "fst (get now' key ?s) = None"
    by (simp add: get_fst_cases memory_after_set)
  have h: "fst (has_key now' key ?s) = False"
    using g by (auto simp: has_key_def split: prod.split)
  have "fst (snd (get_or_set now' now'' key (counted factory_func) ttl' (0, w) ?s)) =
          (1, snd (factory_func w))"
    by (simp add: get_or_set_miss [OF g] counted_def split: prod.split sum.split)
  with g h show ?thesis by (simp add: memory_after_set)
qed

section \<open>Properties of the download manager\<close>

subsection \<open>File names\<close>

lemma generate_filename_example:
  "generate_filename [(''title'', ''Mod: <Test>/Name''), (''publishedfileid'', ''42'')] =
     ''Mod_TestName_42.zip''"
  by (simp add: generate_filename_def rstrip_def isalnum_def isspace_def str_replace_def)

text \<open>
  C7, as stated. For the title \<open>Mod: <Test>/Name\<close> the generated name does not have
  underscores in the place of the characters \<open><\<close>, \<open>>\<close>, \<open>:\<close> and \<open>/\<close>: they are
  dropped, and the characters after them move up.
\<close>

theorem generate_filename_not_underscored_in_place:
  "\<not> underscored_in_place ''Mod: <Test>/Name''
       (generate_filename [(''title'', ''Mod: <Test>/Name''), (''publishedfileid'', ''42'')])"
  by (simp add: generate_filename_example underscored_in_place_def forbidden_chars_def
        upt_conv_Cons)

text \<open>
  C7, amended. For the title \<open>Mod: <Test>/Name\<close> and the identifier \<open>42\<close> the
  generated name is \<open>Mod_TestName_42.zip\<close>: the characters \<open><\<close>, \<open>>\<close>, \<open>:\<close>, \<open>/\<close> are
  removed, the space is replaced by an underscore, and the name ends with \<open>_42\<close> and
  the default extension \<open>.zip\<close>. It contains no forbidden character.
\<close>

theorem generate_filename_scenario:
  "generate_filename [(''title'', ''Mod: <Test>/Name''), (''publishedfileid'', ''42'')] =
     ''Mod_TestName_42.zip''
   \<and> set (generate_filename [(''title'', ''Mod: <Test>/Name''), (''publishedfileid'', ''42'')])
        \<inter> set forbidden_chars = {}
   \<and> suffix ''_42.zip''
        (generate_filename [(''title'', ''Mod: <Test>/Name''), (''publishedfileid'', ''42'')])"
proof -
  have "suffix ''_42.zip'' (''Mod_TestName'' @ ''_42.zip'')"
    by (rule suffix_appendI) simp
  then have a: "suffix ''_42.zip'' ''Mod_TestName_42.zip''" by simp
  have b: "set ''Mod_TestName_42.zip'' \<inter> set forbidden_chars = {}"
    by (simp add: forbidden_chars_def)
  show ?thesis unfolding generate_filename_example using a b by blast
qed

lemma set_rstrip: "set (rstrip s) \<subseteq> set s"
proof -
  have "set (dropWhile isspace (rev s)) \<subseteq> set (rev s)"
    by (meson set_dropWhileD subsetI)
  then show ?thesis by (simp add: rstrip_def)
qed
lemma safe_title_chars:
  "set (take 50 (str_replace '' '' ''_''
          (rstrip (filter (\<lambda>c. isalnum c \<or> c \<in> set '' -_'') title))))
     \<subseteq> {c. isalnum c \<or> c = CHR ''-'' \<or> c = CHR ''_''}"
proof
  fix x
  let ?f = "filter (\<lambda>c. isalnum c \<or> c \<in> set '' -_'') title"
  assume "x \<in> set (take 50 (str_replace '' '' ''_'' (rstrip ?f)))"
  then have "x \<in> set (str_replace '' '' ''_'' (rstrip ?f))"
    by (rule in_set_takeD)
  then obtain c where c: "c \<in> set (rstrip ?f)" and x: "x = (if c = CHR '' '' then CHR ''_'' else c)"
    unfolding str_replace_char by auto
  from c set_rstrip [of ?f] have "c \<in> set ?f" by blast
  then have "isalnum c \<or> c = CHR '' '' \<or> c = CHR ''-'' \<or> c = CHR ''_''"
    by simp
  with x show "x \<in> {c. isalnum c \<or> c = CHR ''-'' \<or> c = CHR ''_''}"
    by (cases "c = CHR '' ''") simp_all
qed

subsection \<open>Starting, queueing and rejecting\<close>

lemma update_new_key: "k \<notin> fst ` set al \<Longrightarrow> AList.update k v al = al @ [(k, v)]"
  by (induction al) auto

lemma keys_delete: "map fst (AList.delete k al) = removeAll k (map fst al)"
  by (induction al) auto

lemma length_delete_less: "k \<in> fst ` set al \<Longrightarrow> length (AList.delete k al) < length al"
proof (induction al)
  case Nil
  then show ?case by simp
next
  case (Cons a al)
  have "length (AList.delete k al) \<le> length al"
    by (simp add: AList.delete_eq)
  with Cons show ?case by (cases "fst a = k") auto
qed

lemma start_download_duplicate:
  assumes "get_download_url item = Some u"
    and "path_join dir (generate_filename item) \<in> fst ` set (active_downloads s)"
  shows "start_download item dir s =
           (False, emit (Download_error (path_join dir (generate_filename item))
                           Already_downloading) s)"
  using assms by (simp add: start_download_def)

lemma start_download_queued:
  assumes "get_download_url item = Some u"
    and "path_join dir (generate_filename item) \<notin> fst ` set (active_downloads s)"
    and "int (length (active_downloads s)) \<ge> max_concurrent_downloads s"
  shows "start_download item dir s =
           (True, s\<lparr>download_queue := download_queue s @ [(item, dir)]\<rparr>)"
  using assms by (simp add: start_download_def)

lemma start_download_started:
  assumes "get_download_url item = Some u"
    and "path_join dir (generate_filename item) \<notin> fst ` set (active_downloads s)"
    and "int (length (active_downloads s)) < max_concurrent_downloads s"
  shows "start_download item dir s =
           (True, emit (Download_started (path_join dir (generate_filename item)) item)
              (s\<lparr>active_downloads := active_downloads s @
                   [(path_join dir (generate_filename item),
                     \<lparr>url = u, file_path = path_join dir (generate_filename item),
                      item_data = item, is_cancelled = False, phase = Not_started,
                      total_size = 0, downloaded_size = 0, last_time = 0,
                      last_downloaded = 0\<rparr>)]\<rparr>))"
  using assms by (simp add: start_download_def start_download_thread_def update_new_key Let_def)

lemma start_all_snoc:
  "start_all (rs @ [r]) s = snd (start_download (fst r) (snd r) (start_all rs s))"
  by (simp add: start_all_def)

lemma start_all_state:
  assumes "distinct (map dest_path reqs)"
    and "\<forall>r \<in> set reqs. get_download_url (fst r) \<noteq> None"
    and "active_downloads s0 = []" and "download_queue s0 = []"
    and "max_concurrent_downloads s0 = int M"
  shows "map fst (active_downloads (start_all reqs s0)) = map dest_path (take M reqs)
         \<and> download_queue (start_all reqs s0) = drop M reqs
         \<and> max_concurrent_downloads (start_all reqs s0) = int M"
  using assms(1,2)
proof (induction reqs rule: rev_induct)
  case Nil
  show ?case using assms(3-5) by (simp add: start_all_def)
next
  case (snoc r rs)
  let ?s = "start_all rs s0"
  let ?p = "path_join (snd r) (generate_filename (fst r))"
  from snoc.prems have d: "distinct (map dest_path rs)" and pn: "dest_path r \<notin> set (map dest_path rs)"
    by auto
  from snoc.prems have "\<forall>r \<in> set rs. get_download_url (fst r) \<noteq> None" by simp
  with snoc.IH d have IH: "map fst (active_downloads ?s) = map dest_path (take M rs)"
    "download_queue ?s = drop M rs" "max_concurrent_downloads ?s = int M"
    by simp_all
  from snoc.prems obtain u where u: "get_download_url (fst r) = Some u" by auto
  have "set (map fst (active_downloads ?s)) \<subseteq> set (map dest_path rs)"
    unfolding IH(1) using set_take_subset [of M rs] by auto
  with pn have notin: "?p \<notin> fst ` set (active_downloads ?s)"
    by (auto simp: dest_path_def)
  have len: "length (active_downloads ?s) = min (length rs) M"
    using IH(1) by (metis length_map length_take)
  show ?case
  proof (cases "M \<le> length rs")
    case True
    with len IH(3) have "int (length (active_downloads ?s)) \<ge> max_concurrent_downloads ?s"
      by simp
    from start_download_queued [OF u notin this] True IH
    show ?thesis by (simp add: start_all_snoc)
  next
    case False
    with len IH(3) have "int (length (active_downloads ?s)) < max_concurrent_downloads ?s"
      by simp
    from start_download_started [OF u notin this] False IH
    show ?thesis by (simp add: start_all_snoc emit_def dest_path_def)
  qed
qed

lemma start_next_after_delete:
  assumes "download_queue s = (item, dir) # rest"
    and "get_download_url item = Some u"
    and "path_join dir (generate_filename item) \<notin> fst ` set (active_downloads s)"
    and "int (length (active_downloads s)) < max_concurrent_downloads s"
  shows "start_next_download s =
           emit (Download_started (path_join dir (generate_filename item)) item)
             (s\<lparr>download_queue := rest,
                active_downloads := active_downloads s @
                   [(path_join dir (generate_filename item),
                     \<lparr>url = u, file_path = path_join dir (generate_filename item),
                      item_data = item, is_cancelled = False, phase = Not_started,
                      total_size = 0, downloaded_size = 0, last_time = 0,
                      last_downloaded = 0\<rparr>)]\<rparr>)"
proof -
  let ?s = "s\<lparr>download_queue := rest\<rparr>"
  have "start_download item dir ?s = (True, emit (Download_started (path_join dir (generate_filename item)) item)
              (?s\<lparr>active_downloads := active_downloads ?s @
                   [(path_join dir (generate_filename item),
                     \<lparr>url = u, file_path = path_join dir (generate_filename item),
                      item_data = item, is_cancelled = False, phase = Not_started,
                      total_size = 0, downloaded_size = 0, last_time = 0,
                      last_downloaded = 0\<rparr>)]\<rparr>))"
    by (rule start_download_started [OF assms(2)]) (use assms in simp_all)
  with assms(1,4) show ?thesis by (simp add: start_next_download_def)
qed

lemma finished_starts_queue_head:
  assumes "p \<in> fst ` set (active_downloads s)"
    and "download_queue s = (item, dir) # rest"
    and "get_download_url item = Some u"
    and "dest_path (item, dir) \<notin> fst ` set (active_downloads s)"
    and "int (length (active_downloads s)) \<le> max_concurrent_downloads s"
  shows "map fst (active_downloads (on_download_finished p fp s)) =
           removeAll p (map fst (active_downloads s)) @ [dest_path (item, dir)]"
    and "download_queue (on_download_finished p fp s) = rest"
    and "emitted (on_download_finished p fp s) =
           emitted s @ [Download_finished p fp, Download_started (dest_path (item, dir)) item]"
proof -
  define s1 where "s1 = emit (Download_finished p fp)
               (s\<lparr>active_downloads := AList.delete p (active_downloads s)\<rparr>)"
  have f: "active_downloads s1 = AList.delete p (active_downloads s)"
    "download_queue s1 = download_queue s" "emitted s1 = emitted s @ [Download_finished p fp]"
    "max_concurrent_downloads s1 = max_concurrent_downloads s"
    by (simp_all add: s1_def emit_def)
  have q: "download_queue s1 = (item, dir) # rest"
    using assms(2) f by simp
  have n: "path_join dir (generate_filename item) \<notin> fst ` set (active_downloads s1)"
    using assms(4) by (auto simp: f dest_path_def AList.delete_eq)
  have l: "int (length (active_downloads s1)) < max_concurrent_downloads s1"
    using length_delete_less [OF assms(1)] assms(5) by (simp add: f)
  note nx = start_next_after_delete [OF q assms(3) n l]
  have act: "active_downloads (start_next_download s1) \<noteq> []"
    by (simp add: nx emit_def)
  have fin: "on_download_finished p fp s = start_next_download s1"
    unfolding on_download_finished_def Let_def s1_def [symmetric] using act by simp
  show "map fst (active_downloads (on_download_finished p fp s)) =
           removeAll p (map fst (active_downloads s)) @ [dest_path (item, dir)]"
    by (simp add: fin nx emit_def f keys_delete dest_path_def)
  show "download_queue (on_download_finished p fp s) = rest"
    by (simp add: fin nx emit_def)
  show "emitted (on_download_finished p fp s) =
           emitted s @ [Download_finished p fp, Download_started (dest_path (item, dir)) item]"
    by (simp add: fin nx emit_def f dest_path_def)
qed

lemma error_starts_queue_head:
  assumes "p \<in> fst ` set (active_downloads s)"
    and "download_queue s = (item, dir) # rest"
    and "get_download_url item = Some u"
    and "dest_path (item, dir) \<notin> fst ` set (active_downloads s)"
    and "int (length (active_downloads s)) \<le> max_concurrent_downloads s"
  shows "map fst (active_downloads (on_download_error p msg s)) =
           removeAll p (map fst (active_downloads s)) @ [dest_path (item, dir)]"
    and "download_queue (on_download_error p msg s) = rest"
    and "emitted (on_download_error p msg s) =
           emitted s @ [Download_error p msg, Download_started (dest_path (item, dir)) item]"
proof -
  define s1 where "s1 = emit (Download_error p msg)
               (s\<lparr>active_downloads := AList.delete p (active_downloads s)\<rparr>)"
  have f: "active_downloads s1 = AList.delete p (active_downloads s)"
    "download_queue s1 = download_queue s" "emitted s1 = emitted s @ [Download_error p msg]"
    "max_concurrent_downloads s1 = max_concurrent_downloads s"
    by (simp_all add: s1_def emit_def)
  have q: "download_queue s1 = (item, dir) # rest"
    using assms(2) f by simp
  have n: "path_join dir (generate_filename item) \<notin> fst ` set (active_downloads s1)"
    using assms(4) by (auto simp: f dest_path_def AList.delete_eq)
  have l: "int (length (active_downloads s1)) < max_concurrent_downloads s1"
    using length_delete_less [OF assms(1)] assms(5) by (simp add: f)
  note nx = start_next_after_delete [OF q assms(3) n l]
  have act: "active_downloads (start_next_download s1) \<noteq> []"
    by (simp add: nx emit_def)
  have fin: "on_download_error p msg s = start_next_download s1"
    unfolding on_download_error_def Let_def s1_def [symmetric] using act by simp
  show "map fst (active_downloads (on_download_error p msg s)) =
           removeAll p (map fst (active_downloads s)) @ [dest_path (item, dir)]"
    by (simp add: fin nx emit_def f keys_delete dest_path_def)
  show "download_queue (on_download_error p msg s) = rest"
    by (simp add: fin nx emit_def)
  show "emitted (on_download_error p msg s) =
           emitted s @ [Download_error p msg, Download_started (dest_path (item, dir)) item]"
    by (simp add: fin nx emit_def f dest_path_def)
qed

lemma example_items:
  "get_download_url item_a = Some ''https://steamworkshopdownloader.io/download/1''"
  "get_download_url item_b = Some ''https://steamworkshopdownloader.io/download/2''"
  "dest_path (item_a, ''d'') = ''d/A_1.zip''"
  "dest_path (item_b, ''d'') = ''d/B_2.zip''"
  "path_join ''d'' (generate_filename item_a) = ''d/A_1.zip''"
  "path_join ''d'' (generate_filename item_b) = ''d/B_2.zip''"
  by (simp_all add: get_download_url_def dest_path_def path_join_def startswith_def
        endswith_def suffix_to_prefix generate_filename_def rstrip_def isalnum_def isspace_def
        str_replace_def)

lemma example_first_start:
  "start_download item_a ''d'' manager_of_one =
     (True, \<lparr>active_downloads = [(''d/A_1.zip'',
               \<lparr>url = ''https://steamworkshopdownloader.io/download/1'',
                file_path = ''d/A_1.zip'', item_data = item_a, is_cancelled = False,
                phase = Not_started, total_size = 0, downloaded_size = 0, last_time = 0,
                last_downloaded = 0\<rparr>)],
             download_queue = [], max_concurrent_downloads = 1,
             emitted = [Download_started ''d/A_1.zip'' item_a]\<rparr>)"
  by (simp add: start_download_def example_items start_download_thread_def emit_def Let_def)

text \<open>
  C4. From an idle manager with limit \<open>M\<close>, starting \<open>N > M\<close> requests with distinct
  destination paths and resolvable URLs leaves the first \<open>M\<close> active and the other
  \<open>N - M\<close> queued in the order of the calls. And in any state within its limit, when
  an active transfer finishes or fails while the queue is not empty, the head of the
  queue, and only it, is started: it joins the active set and the rest of the queue
  stays as it was.
\<close>

theorem bounded_concurrency_fifo:
  "(distinct (map dest_path reqs) \<and> (\<forall>r \<in> set reqs. get_download_url (fst r) \<noteq> None)
      \<and> active_downloads s0 = [] \<and> download_queue s0 = []
      \<and> max_concurrent_downloads s0 = int M \<and> M < length reqs \<longrightarrow>
        length (active_downloads (start_all reqs s0)) = M
      \<and> map fst (active_downloads (start_all reqs s0)) = map dest_path (take M reqs)
      \<and> length (download_queue (start_all reqs s0)) = length reqs - M
      \<and> download_queue (start_all reqs s0) = drop M reqs)
   \<and> (p \<in> fst ` set (active_downloads s) \<and> download_queue s = (item, dir) # rest
      \<and> get_download_url item \<noteq> None
      \<and> dest_path (item, dir) \<notin> fst ` set (active_downloads s)
      \<and> int (length (active_downloads s)) \<le> max_concurrent_downloads s \<longrightarrow>
        map fst (active_downloads (on_download_finished p fp s)) =
          removeAll p (map fst (active_downloads s)) @ [dest_path (item, dir)]
      \<and> download_queue (on_download_finished p fp s) = rest
      \<and> map fst (active_downloads (on_download_error p msg s)) =
          removeAll p (map fst (active_downloads s)) @ [dest_path (item, dir)]
      \<and> download_queue (on_download_error p msg s) = rest)"
proof (intro conjI impI)
  assume a: "distinct (map dest_path reqs) \<and> (\<forall>r \<in> set reqs. get_download_url (fst r) \<noteq> None)
      \<and> active_downloads s0 = [] \<and> download_queue s0 = []
      \<and> max_concurrent_downloads s0 = int M \<and> M < length reqs"
  then have st: "map fst (active_downloads (start_all reqs s0)) = map dest_path (take M reqs)"
    "download_queue (start_all reqs s0) = drop M reqs"
    using start_all_state [of reqs s0 M] by simp_all
  from a have M: "M < length reqs" by simp
  show "map fst (active_downloads (start_all reqs s0)) = map dest_path (take M reqs)"
    by (rule st(1))
  show "download_queue (start_all reqs s0) = drop M reqs"
    by (rule st(2))
  have "length (map fst (active_downloads (start_all reqs s0))) = M"
    unfolding st(1) using M by simp
  then show "length (active_downloads (start_all reqs s0)) = M" by simp
  show "length (download_queue (start_all reqs s0)) = length reqs - M"
    unfolding st(2) by simp
next
  assume b: "p \<in> fst ` set (active_downloads s) \<and> download_queue s = (item, dir) # rest
      \<and> get_download_url item \<noteq> None
      \<and> dest_path (item, dir) \<notin> fst ` set (active_downloads s)
      \<and> int (length (active_downloads s)) \<le> max_concurrent_downloads s"
  then obtain u where u: "get_download_url item = Some u" by auto
  from b have h: "p \<in> fst ` set (active_downloads s)" "download_queue s = (item, dir) # rest"
    "dest_path (item, dir) \<notin> fst ` set (active_downloads s)"
    "int (length (active_downloads s)) \<le> max_concurrent_downloads s"
    by simp_all
  show "map fst (active_downloads (on_download_finished p fp s)) =
          removeAll p (map fst (active_downloads s)) @ [dest_path (item, dir)]"
    by (rule finished_starts_queue_head(1) [OF h(1,2) u h(3,4)])
  show "download_queue (on_download_finished p fp s) = rest"
    by (rule finished_starts_queue_head(2) [OF h(1,2) u h(3,4)])
  show "map fst (active_downloads (on_download_error p msg s)) =
          removeAll p (map fst (active_downloads s)) @ [dest_path (item, dir)]"
    by (rule error_starts_queue_head(1) [OF h(1,2) u h(3,4)])
  show "download_queue (on_download_error p msg s) = rest"
    by (rule error_starts_queue_head(2) [OF h(1,2) u h(3,4)])
qed

lemma example_second_queued:
  "start_download item_b ''d'' (snd (start_download item_a ''d'' manager_of_one)) =
     (True, \<lparr>active_downloads = [(''d/A_1.zip'',
               \<lparr>url = ''https://steamworkshopdownloader.io/download/1'',
                file_path = ''d/A_1.zip'', item_data = item_a, is_cancelled = False,
                phase = Not_started, total_size = 0, downloaded_size = 0, last_time = 0,
                last_downloaded = 0\<rparr>)],
             download_queue = [(item_b, ''d'')], max_concurrent_downloads = 1,
             emitted = [Download_started ''d/A_1.zip'' item_a]\<rparr>)"
  by (simp add: example_first_start) (simp add: start_download_def example_items)

lemma example_two_started:
  "start_all [(item_a, ''d''), (item_b, ''d'')] manager_of_one =
     \<lparr>active_downloads = [(''d/A_1.zip'',
               \<lparr>url = ''https://steamworkshopdownloader.io/download/1'',
                file_path = ''d/A_1.zip'', item_data = item_a, is_cancelled = False,
                phase = Not_started, total_size = 0, downloaded_size = 0, last_time = 0,
                last_downloaded = 0\<rparr>)],
             download_queue = [(item_b, ''d'')], max_concurrent_downloads = 1,
             emitted = [Download_started ''d/A_1.zip'' item_a]\<rparr>"
  by (simp add: start_all_def example_second_queued)

theorem bounded_concurrency_fifo_witness:
  "distinct (map dest_path [(item_a, ''d''), (item_b, ''d'')])
   \<and> get_download_url item_a \<noteq> None \<and> get_download_url item_b \<noteq> None
   \<and> (1::nat) < length [(item_a, ''d''), (item_b, ''d'')]
   \<and> map fst (active_downloads (start_all [(item_a, ''d''), (item_b, ''d'')] manager_of_one))
       = [''d/A_1.zip'']
   \<and> download_queue (start_all [(item_a, ''d''), (item_b, ''d'')] manager_of_one)
       = [(item_b, ''d'')]
   \<and> map fst (active_downloads (on_download_finished ''d/A_1.zip'' ''d/A_1.zip''
         (start_all [(item_a, ''d''), (item_b, ''d'')] manager_of_one))) = [''d/B_2.zip'']
   \<and> download_queue (on_download_finished ''d/A_1.zip'' ''d/A_1.zip''
         (start_all [(item_a, ''d''), (item_b, ''d'')] manager_of_one)) = []
   \<and> map fst (active_downloads (on_download_error ''d/A_1.zip'' Network_error
         (start_all [(item_a, ''d''), (item_b, ''d'')] manager_of_one))) = [''d/B_2.zip'']
   \<and> download_queue (on_download_error ''d/A_1.zip'' Network_error
         (start_all [(item_a, ''d''), (item_b, ''d'')] manager_of_one)) = []"
  using bounded_concurrency_fifo [where reqs = "[(item_a, ''d''), (item_b, ''d'')]"
          and ?s0.0 = manager_of_one and M = 1
          and s = "start_all [(item_a, ''d''), (item_b, ''d'')] manager_of_one"
          and p = "''d/A_1.zip''" and item = item_b and dir = "''d''" and rest = "[]"
          and fp = "''d/A_1.zip''" and msg = Network_error]
  by (simp add: example_items example_two_started)

subsection \<open>Duplicate requests\<close>

text \<open>
  C3, as stated. With one transfer allowed and \<open>A\<close> running, a first request for \<open>B\<close>
  is queued, so it has not reached a terminal state; a second request for \<open>B\<close> with the
  same directory is accepted too: it returns \<open>True\<close>, emits nothing, and \<open>B\<close> is in the
  queue twice.
\<close>

theorem start_download_accepts_queued_duplicate:
  "start_download item_b ''d''
     (snd (start_download item_b ''d'' (snd (start_download item_a ''d'' manager_of_one)))) =
     (True, \<lparr>active_downloads = [(''d/A_1.zip'',
               \<lparr>url = ''https://steamworkshopdownloader.io/download/1'',
                file_path = ''d/A_1.zip'', item_data = item_a, is_cancelled = False,
                phase = Not_started, total_size = 0, downloaded_size = 0, last_time = 0,
                last_downloaded = 0\<rparr>)],
             download_queue = [(item_b, ''d''), (item_b, ''d'')],
             max_concurrent_downloads = 1,
             emitted = [Download_started ''d/A_1.zip'' item_a]\<rparr>)"
  by (simp add: example_second_queued) (simp add: start_download_def example_items)

text \<open>
  C3, amended. A \<open>start_download\<close> whose URL resolves and whose destination path is in
  the active set (\<open>is_downloading\<close>) is rejected: it emits the error signal for that
  path, returns \<open>False\<close> and changes nothing else.
\<close>

theorem start_download_rejects_active_duplicate:
  assumes "get_download_url item \<noteq> None"
    and "is_downloading (dest_path (item, dir)) s"
  shows "start_download item dir s =
           (False, emit (Download_error (dest_path (item, dir)) Already_downloading) s)"
proof -
  from assms(1) obtain u where u: "get_download_url item = Some u" by auto
  from assms(2) have "path_join dir (generate_filename item) \<in> fst ` set (active_downloads s)"
    by (simp add: is_downloading_def dest_path_def)
  from start_download_duplicate [OF u this] show ?thesis
    by (simp add: dest_path_def)
qed

theorem start_download_rejects_active_duplicate_witness:
  "get_download_url item_a \<noteq> None
   \<and> fst (start_download item_a ''d'' manager_of_one)
   \<and> is_downloading (dest_path (item_a, ''d'')) (snd (start_download item_a ''d'' manager_of_one))
   \<and> start_download item_a ''d'' (snd (start_download item_a ''d'' manager_of_one)) =
       (False, emit (Download_error ''d/A_1.zip'' Already_downloading)
                 (snd (start_download item_a ''d'' manager_of_one)))"
  using start_download_rejects_active_duplicate [where item = item_a and dir = "''d''"
          and s = "snd (start_download item_a ''d'' manager_of_one)"]
  by (simp add: example_items example_first_start is_downloading_def)

subsection \<open>Cancelling\<close>

lemma cancel_download_sets_flag:
  assumes "map_of (active_downloads s) p = Some th"
  shows "cancel_download p s =
           (True, s\<lparr>active_downloads :=
                      AList.update p (th\<lparr>is_cancelled := True\<rparr>) (active_downloads s)\<rparr>)"
    and "map_of (active_downloads (snd (cancel_download p s))) p =
           Some (th\<lparr>is_cancelled := True\<rparr>)"
  using assms by (simp_all add: cancel_download_def update_conv')

lemma key_of_map_of: "map_of al k = Some v \<Longrightarrow> k \<in> fst ` set al"
  by (induction al) (auto split: if_splits)

lemma keys_update_present:
  "map_of al k = Some v \<Longrightarrow> fst ` set (AList.update k w al) = fst ` set al"
  by (induction al) (auto split: if_splits)

text \<open>
  When the loop meets the flag at a chunk boundary, the file is removed and nothing is
  emitted; the thread has returned, and it stays in the active set.
\<close>

lemma cancel_observed_at_chunk:
  assumes "map_of (active_downloads (manager sys)) p = Some th"
    and "phase th = Streaming" and "is_cancelled th"
  shows "p \<notin> fst ` set (files (run_item p (Chunk n t) sys))"
    and "emitted (manager (run_item p (Chunk n t) sys)) = emitted (manager sys)"
    and "download_queue (manager (run_item p (Chunk n t) sys)) = download_queue (manager sys)"
    and "map_of (active_downloads (manager (run_item p (Chunk n t) sys))) p =
           Some (th\<lparr>phase := Returned\<rparr>)"
    and "is_downloading p (manager (run_item p (Chunk n t) sys))"
proof -
  have r: "run_item p (Chunk n t) sys = abandon p th sys"
    using assms by (simp add: run_item_def)
  show "p \<notin> fst ` set (files (run_item p (Chunk n t) sys))"
    by (auto simp: r abandon_def AList.delete_eq)
  show "emitted (manager (run_item p (Chunk n t) sys)) = emitted (manager sys)"
    by (simp add: r abandon_def set_thread_def)
  show "download_queue (manager (run_item p (Chunk n t) sys)) = download_queue (manager sys)"
    by (simp add: r abandon_def set_thread_def)
  show "map_of (active_downloads (manager (run_item p (Chunk n t) sys))) p =
           Some (th\<lparr>phase := Returned\<rparr>)"
    by (simp add: r abandon_def set_thread_def update_conv')
  have "fst ` set (active_downloads (manager (run_item p (Chunk n t) sys))) =
          fst ` set (active_downloads (manager sys))"
    by (simp add: r abandon_def set_thread_def keys_update_present [OF assms(1)])
  moreover have "p \<in> fst ` set (active_downloads (manager sys))"
    using assms(1) by (rule key_of_map_of)
  ultimately show "is_downloading p (manager (run_item p (Chunk n t) sys))"
    by (simp add: is_downloading_def)
qed

lemma returned_thread_is_silent:
  assumes "map_of (active_downloads (manager sys)) p = Some th" and "phase th = Returned"
  shows "run_item p it sys = sys" and "run_end p sys = sys" and "run_connect p resp sys = sys"
  using assms by (simp_all add: run_item_def run_end_def run_connect_def)

lemma example_b_after_a:
  "start_download item_b ''d'' \<lparr>active_downloads = [(''d/A_1.zip'',
               \<lparr>url = ''https://steamworkshopdownloader.io/download/1'',
                file_path = ''d/A_1.zip'', item_data = item_a, is_cancelled = False,
                phase = Not_started, total_size = 0, downloaded_size = 0, last_time = 0,
                last_downloaded = 0\<rparr>)],
             download_queue = [], max_concurrent_downloads = 1,
             emitted = [Download_started ''d/A_1.zip'' item_a]\<rparr> =
     (True, \<lparr>active_downloads = [(''d/A_1.zip'',
               \<lparr>url = ''https://steamworkshopdownloader.io/download/1'',
                file_path = ''d/A_1.zip'', item_data = item_a, is_cancelled = False,
                phase = Not_started, total_size = 0, downloaded_size = 0, last_time = 0,
                last_downloaded = 0\<rparr>)],
             download_queue = [(item_b, ''d'')], max_concurrent_downloads = 1,
             emitted = [Download_started ''d/A_1.zip'' item_a]\<rparr>)"
  by (simp add: start_download_def example_items)

lemma example_progress:
  "exec [Start item_a ''d'', Start item_b ''d'',
      Connect ''d/A_1.zip'' (Connected 100 0), Deliver ''d/A_1.zip'' (Chunk 50 (1/2))]
     \<lparr>manager = manager_of_one, files = []\<rparr> =
   \<lparr>manager = \<lparr>active_downloads = [(''d/A_1.zip'',
               \<lparr>url = ''https://steamworkshopdownloader.io/download/1'',
                file_path = ''d/A_1.zip'', item_data = item_a, is_cancelled = False,
                phase = Streaming, total_size = 100, downloaded_size = 50, last_time = 0,
                last_downloaded = 0\<rparr>)],
             download_queue = [(item_b, ''d'')], max_concurrent_downloads = 1,
             emitted = [Download_started ''d/A_1.zip'' item_a,
                        Download_progress ''d/A_1.zip'' 50 100 50]\<rparr>,
    files = [(''d/A_1.zip'', 50)]\<rparr>"
  by (simp add: exec_def example_first_start example_b_after_a run_connect_def run_item_def
        set_thread_def write_chunk_def emit_def Let_def)

lemma exec_append: "exec (xs @ ys) sys = exec ys (exec xs sys)"
  by (simp add: exec_def)

lemma cancelled_run_result:
  "cancelled_run =
   \<lparr>manager = \<lparr>active_downloads = [(''d/A_1.zip'',
               \<lparr>url = ''https://steamworkshopdownloader.io/download/1'',
                file_path = ''d/A_1.zip'', item_data = item_a, is_cancelled = True,
                phase = Returned, total_size = 100, downloaded_size = 50, last_time = 0,
                last_downloaded = 0\<rparr>)],
             download_queue = [(item_b, ''d'')], max_concurrent_downloads = 1,
             emitted = [Download_started ''d/A_1.zip'' item_a,
                        Download_progress ''d/A_1.zip'' 50 100 50]\<rparr>, files = []\<rparr>"
proof -
  have "cancelled_run =
      exec [Cancel ''d/A_1.zip'', Deliver ''d/A_1.zip'' (Chunk 50 (3/5)),
            End_of_stream ''d/A_1.zip'']
       (exec [Start item_a ''d'', Start item_b ''d'',
          Connect ''d/A_1.zip'' (Connected 100 0), Deliver ''d/A_1.zip'' (Chunk 50 (1/2))]
         \<lparr>manager = manager_of_one, files = []\<rparr>)"
    by (simp only: exec_append [symmetric] append.simps)
  also have "\<dots> = exec [Cancel ''d/A_1.zip'', Deliver ''d/A_1.zip'' (Chunk 50 (3/5)),
            End_of_stream ''d/A_1.zip'']
       \<lparr>manager = \<lparr>active_downloads = [(''d/A_1.zip'',
               \<lparr>url = ''https://steamworkshopdownloader.io/download/1'',
                file_path = ''d/A_1.zip'', item_data = item_a, is_cancelled = False,
                phase = Streaming, total_size = 100, downloaded_size = 50, last_time = 0,
                last_downloaded = 0\<rparr>)],
             download_queue = [(item_b, ''d'')], max_concurrent_downloads = 1,
             emitted = [Download_started ''d/A_1.zip'' item_a,
                        Download_progress ''d/A_1.zip'' 50 100 50]\<rparr>,
    files = [(''d/A_1.zip'', 50)]\<rparr>"
    by (simp only: example_progress)
  also have "\<dots> =
   \<lparr>manager = \<lparr>active_downloads = [(''d/A_1.zip'',
               \<lparr>url = ''https://steamworkshopdownloader.io/download/1'',
                file_path = ''d/A_1.zip'', item_data = item_a, is_cancelled = True,
                phase = Returned, total_size = 100, downloaded_size = 50, last_time = 0,
                last_downloaded = 0\<rparr>)],
             download_queue = [(item_b, ''d'')], max_concurrent_downloads = 1,
             emitted = [Download_started ''d/A_1.zip'' item_a,
                        Download_progress ''d/A_1.zip'' 50 100 50]\<rparr>, files = []\<rparr>"
    by (simp add: exec_def cancel_download_def run_item_def run_end_def set_thread_def
          abandon_def)
  finally show ?thesis .
qed

text \<open>
  Without a cancellation the transfer of \<open>A\<close> ends in \<open>_on_download_finished\<close>, which
  takes \<open>A\<close> out of the active set and starts the queued \<open>B\<close>.
\<close>

lemma completed_run_result:
  "completed_run =
   \<lparr>manager = \<lparr>active_downloads = [(''d/B_2.zip'',
               \<lparr>url = ''https://steamworkshopdownloader.io/download/2'',
                file_path = ''d/B_2.zip'', item_data = item_b, is_cancelled = False,
                phase = Not_started, total_size = 0, downloaded_size = 0, last_time = 0,
                last_downloaded = 0\<rparr>)],
             download_queue = [], max_concurrent_downloads = 1,
             emitted = [Download_started ''d/A_1.zip'' item_a,
                        Download_progress ''d/A_1.zip'' 50 100 50,
                        Download_progress ''d/A_1.zip'' 100 100 100,
                        Download_finished ''d/A_1.zip'' ''d/A_1.zip'',
                        Download_started ''d/B_2.zip'' item_b]\<rparr>,
    files = [(''d/A_1.zip'', 100)]\<rparr>"
proof -
  have "completed_run =
      exec [Deliver ''d/A_1.zip'' (Chunk 50 (3/5)), End_of_stream ''d/A_1.zip'']
       (exec [Start item_a ''d'', Start item_b ''d'',
          Connect ''d/A_1.zip'' (Connected 100 0), Deliver ''d/A_1.zip'' (Chunk 50 (1/2))]
         \<lparr>manager = manager_of_one, files = []\<rparr>)"
    by (simp only: exec_append [symmetric] append.simps)
  also have "\<dots> = exec [Deliver ''d/A_1.zip'' (Chunk 50 (3/5)), End_of_stream ''d/A_1.zip'']
       \<lparr>manager = \<lparr>active_downloads = [(''d/A_1.zip'',
               \<lparr>url = ''https://steamworkshopdownloader.io/download/1'',
                file_path = ''d/A_1.zip'', item_data = item_a, is_cancelled = False,
                phase = Streaming, total_size = 100, downloaded_size = 50, last_time = 0,
                last_downloaded = 0\<rparr>)],
             download_queue = [(item_b, ''d'')], max_concurrent_downloads = 1,
             emitted = [Download_started ''d/A_1.zip'' item_a,
                        Download_progress ''d/A_1.zip'' 50 100 50]\<rparr>,
    files = [(''d/A_1.zip'', 50)]\<rparr>"
    by (simp only: example_progress)
  also have "\<dots> =
   \<lparr>manager = \<lparr>active_downloads = [(''d/B_2.zip'',
               \<lparr>url = ''https://steamworkshopdownloader.io/download/2'',
                file_path = ''d/B_2.zip'', item_data = item_b, is_cancelled = False,
                phase = Not_started, total_size = 0, downloaded_size = 0, last_time = 0,
                last_downloaded = 0\<rparr>)],
             download_queue = [], max_concurrent_downloads = 1,
             emitted = [Download_started ''d/A_1.zip'' item_a,
                        Download_progress ''d/A_1.zip'' 50 100 50,
                        Download_progress ''d/A_1.zip'' 100 100 100,
                        Download_finished ''d/A_1.zip'' ''d/A_1.zip'',
                        Download_started ''d/B_2.zip'' item_b]\<rparr>,
    files = [(''d/A_1.zip'', 100)]\<rparr>"
    by (simp add: exec_def run_item_def run_end_def set_thread_def write_chunk_def emit_def
          Let_def on_download_finished_def start_next_download_def start_download_def
          start_download_thread_def example_items)
  finally show ?thesis .
qed

text \<open>
  C2. In the cancelled run the partial file is removed and no signal follows the
  cancellation, but the path of \<open>A\<close> is still in the active set: \<open>is_downloading\<close>
  holds, the queued \<open>B\<close> is not started, a new request for \<open>A\<close> is rejected as already
  downloading, and only \<open>clear_completed_downloads\<close> takes the path out.
\<close>

theorem cancelled_download_stays_active:
  "files cancelled_run = []
   \<and> emitted (manager cancelled_run) =
       [Download_started ''d/A_1.zip'' item_a, Download_progress ''d/A_1.zip'' 50 100 50]
   \<and> is_downloading ''d/A_1.zip'' (manager cancelled_run)
   \<and> get_active_downloads (manager cancelled_run) = [''d/A_1.zip'']
   \<and> download_queue (manager cancelled_run) = [(item_b, ''d'')]
   \<and> fst (start_download item_a ''d'' (manager cancelled_run)) = False
   \<and> get_active_downloads (clear_completed_downloads (manager cancelled_run)) = []"
  unfolding cancelled_run_result
  by (simp add: is_downloading_def get_active_downloads_def start_download_def
        example_items clear_completed_downloads_def Let_def)

section \<open>Properties of the search\<close>









end
